theory Spec2Isabelle
  imports Main "HOL-Library.Word" "HOL-Library.Sublist"
begin

section \<open>JavaScript strings and numbers\<close>

text \<open>
  A JavaScript string is a sequence of UTF-16 code units. The regular expression of
  \<^verbatim>\<open>handleNamespaceChange\<close> has no \<^verbatim>\<open>u\<close> flag and \<^verbatim>\<open>String.prototype.trim\<close> removes
  single code units, so both work on code units; the strings of the model are lists of them.
  \<open>js\<close> embeds an ASCII literal of the source.
\<close>

type_synonym code_unit = "16 word"
type_synonym js_string = "code_unit list"

definition js :: "string \<Rightarrow> js_string" where
  "js s = map of_char s"

text \<open>
  \<^verbatim>\<open>trim()\<close> strips the code units of ECMAScript's WhiteSpace and LineTerminator productions
  from both ends: TAB, LF, VT, FF, CR, SP, NBSP, U+1680, U+2000..U+200A, U+2028, U+2029,
  U+202F, U+205F, U+3000 and U+FEFF.
\<close>

definition js_whitespace :: "code_unit \<Rightarrow> bool" where
  "js_whitespace c =
     (c \<in> {0x9, 0xA, 0xB, 0xC, 0xD, 0x20, 0xA0, 0x1680, 0x2028, 0x2029, 0x202F, 0x205F,
            0x3000, 0xFEFF}
      \<or> (0x2000 \<le> c \<and> c \<le> 0x200A))"

definition js_trim :: "js_string \<Rightarrow> js_string" where
  "js_trim s = rev (dropWhile js_whitespace (rev (dropWhile js_whitespace s)))"

text \<open>
  The counters of the component are natural numbers; inside a template literal they print in
  decimal. A chunk count of the server is a non-negative safe integer (below \<open>2\<^sup>5\<^sup>3\<close>), which
  JavaScript holds exactly and prints in decimal as well; \<open>count\<close> is the type of these. A
  field that is absent prints as \<^verbatim>\<open>undefined\<close>.
\<close>

type_synonym count = "53 word"

fun decimal :: "nat \<Rightarrow> js_string" where
  "decimal n =
     (if n < 10 then [of_nat (48 + n)] else decimal (n div 10) @ [of_nat (48 + n mod 10)])"

definition template_number :: "count option \<Rightarrow> js_string" where
  "template_number v = (case v of None \<Rightarrow> js ''undefined'' | Some c \<Rightarrow> decimal (unat c))"

text \<open>\<^verbatim>\<open>a || b\<close> on strings that may be absent: the empty string is falsy, as \<^verbatim>\<open>undefined\<close> is.\<close>

definition truthy :: "js_string option \<Rightarrow> bool" where
  "truthy v = (case v of None \<Rightarrow> False | Some t \<Rightarrow> t \<noteq> [])"

definition js_or :: "js_string option \<Rightarrow> js_string option \<Rightarrow> js_string option" where
  "js_or a b = (if truthy a then a else b)"


section \<open>The workspace binding (utils/namespace)\<close>

text \<open>
  \<^verbatim>\<open>localStorage\<close> maps keys to strings; \<^verbatim>\<open>getItem\<close> of a key never set is \<^verbatim>\<open>null\<close>
  (\<open>None\<close>). The storage is taken to accept every write.
\<close>

type_synonym local_storage = "js_string \<rightharpoonup> js_string"

definition setNamespace :: "js_string \<Rightarrow> local_storage \<Rightarrow> local_storage" where
  "setNamespace namespace ls = ls(js ''contractNamespace'' \<mapsto> namespace)"

definition getNamespace :: "local_storage \<Rightarrow> js_string option" where
  "getNamespace ls = ls (js ''contractNamespace'')"

definition clearNamespace :: "local_storage \<Rightarrow> local_storage" where
  "clearNamespace ls = ls(js ''contractNamespace'' := None)"


section \<open>The upload component (ContractUpload)\<close>

subsection \<open>Data\<close>

text \<open>
  A \<^verbatim>\<open>File\<close> is an object: \<open>obj_ref\<close> is its identity, which is all that \<^verbatim>\<open>===\<close> compares;
  its name and bytes play no part in the comparison.
\<close>

record File =
  obj_ref :: nat
  file_name :: js_string
  file_bytes :: "8 word list"

definition same_object :: "File \<Rightarrow> File \<Rightarrow> bool" where
  "same_object f g = (obj_ref f = obj_ref g)"

text \<open>
  \<^verbatim>\<open>interface FileUploadStatus\<close>; the optional fields are absent when \<open>None\<close>. The status is
  the string itself, \<^verbatim>\<open>'uploading'\<close>, \<^verbatim>\<open>'success'\<close> or \<^verbatim>\<open>'error'\<close> by its declared type, since
  \<^verbatim>\<open>onDrop\<close> copies into it whatever status string the response holds. The field
  \<^verbatim>\<open>file\<close> is \<open>file_of\<close> here, and the \<^verbatim>\<open>type\<close> and \<^verbatim>\<open>text\<close> of the global message are
  \<open>msg_type\<close> and \<open>msg_text\<close>, since the plain names are keywords.
\<close>

record FileUploadStatus =
  file_of :: File
  status :: js_string
  message :: "js_string option"
  chunksCreated :: "count option"

datatype severity = type_success | type_error

record global_message =
  msg_type :: severity
  msg_text :: js_string

text \<open>The four \<^verbatim>\<open>useState\<close> cells of the component.\<close>

record upload_state =
  files :: "FileUploadStatus list"
  globalMessage :: "global_message option"
  namespace :: js_string
  namespaceError :: js_string


subsection \<open>The upload request (services/api)\<close>

text \<open>
  \<^verbatim>\<open>interface UploadResult\<close> and \<^verbatim>\<open>interface UploadResponse\<close>. The response body is JSON
  that nothing validates, and \<^verbatim>\<open>onDrop\<close> itself reads \<^verbatim>\<open>results\<close> with \<^verbatim>\<open>?.\<close>, so a
  field that may be missing is an \<open>option\<close>; the body itself is taken to be an object. The
  object that \<^verbatim>\<open>onDrop\<close> builds when there is no first result has neither \<^verbatim>\<open>filename\<close> nor
  \<^verbatim>\<open>message\<close>. The \<^verbatim>\<open>status\<close> and \<^verbatim>\<open>message\<close> of a result are \<open>r_status\<close> and \<open>r_message\<close>, apart
  from those of an item.
\<close>

record UploadResult =
  filename :: "js_string option"
  r_status :: js_string
  chunks_created :: "count option"
  r_message :: "js_string option"

record UploadResponse =
  response_message :: js_string
  total_chunks :: "count option"
  results :: "UploadResult list option"

text \<open>
  What a \<^verbatim>\<open>catch\<close> clause reads of a rejected request: \<^verbatim>\<open>error.response?.data?.detail\<close>
  (absent when there was no response, or no detail in it) and \<^verbatim>\<open>error.message\<close>.
\<close>

record request_error =
  detail :: "js_string option"
  error_message :: "js_string option"

text \<open>
  An awaited request is fulfilled with the response body, is rejected, or never settles
  (there is no timeout), in which case the handler is never resumed.
\<close>

datatype 'a settlement = Fulfilled 'a | Rejected request_error | Never

text \<open>
  \<^verbatim>\<open>uploadContract(file, namespace)\<close> posts a form with the one file under \<^verbatim>\<open>files\<close> and the
  workspace in the header \<^verbatim>\<open>X-Namespace\<close>.
\<close>

record upload_request =
  form_files :: "File list"
  x_namespace :: js_string

definition uploadContract :: "File \<Rightarrow> js_string \<Rightarrow> upload_request" where
  "uploadContract file ns = \<lparr>form_files = [file], x_namespace = ns\<rparr>"

text \<open>
  The backend is any function from the upload requests sent so far, the last one being the
  request at hand, to the way that request settles.
\<close>

type_synonym upload_backend = "upload_request list \<Rightarrow> UploadResponse settlement"


subsection \<open>Effects of a handler\<close>

text \<open>
  \<^verbatim>\<open>onDrop\<close> reads nothing of the component but the \<^verbatim>\<open>namespace\<close> of the render it was
  created in; everything else it does is a call of a state setter (with an updater function
  where the source passes one) or a network request. A run of the handler is the list of
  these calls in program order, and the state is what the setters make of it in that order.
\<close>

datatype effect =
    SetNamespaceError js_string
  | SetGlobalMessage "global_message option"
  | SetFiles "FileUploadStatus list \<Rightarrow> FileUploadStatus list"
  | Request upload_request
  | Response "UploadResponse settlement"

fun apply_effect :: "effect \<Rightarrow> upload_state \<Rightarrow> upload_state" where
  "apply_effect (SetNamespaceError e) s = s\<lparr>namespaceError := e\<rparr>"
| "apply_effect (SetGlobalMessage m) s = s\<lparr>globalMessage := m\<rparr>"
| "apply_effect (SetFiles updater) s = s\<lparr>files := updater (files s)\<rparr>"
| "apply_effect (Request r) s = s"
| "apply_effect (Response r) s = s"

definition run :: "effect list \<Rightarrow> upload_state \<Rightarrow> upload_state" where
  "run effs s = fold apply_effect effs s"


subsection \<open>onDrop\<close>

text \<open>
  \<^verbatim>\<open>result.results?.[0] || { status: 'success', chunks_created: result.total_chunks }\<close>:
  a first result is an object, hence truthy.
\<close>

definition first_result :: "UploadResponse \<Rightarrow> UploadResult" where
  "first_result result =
     (case results result of
        Some (r # rs) \<Rightarrow> r
      | _ \<Rightarrow> \<lparr>filename = None, r_status = js ''success'', chunks_created = total_chunks result,
              r_message = None\<rparr>)"

text \<open>The updater of the \<^verbatim>\<open>try\<close> block and the updater of the \<^verbatim>\<open>catch\<close> block.\<close>

definition mark_result ::
  "File \<Rightarrow> UploadResult \<Rightarrow> FileUploadStatus list \<Rightarrow> FileUploadStatus list" where
  "mark_result file fileResult prev =
     map (\<lambda>f. if same_object (file_of f) file
              then f\<lparr>status := r_status fileResult,
                     message :=
                       (if r_status fileResult = js ''success''
                        then Some (js ''Processed successfully! ''
                                   @ template_number (chunks_created fileResult)
                                   @ js '' sections analyzed.'')
                        else r_message fileResult),
                     chunksCreated := chunks_created fileResult\<rparr>
              else f) prev"

definition mark_error ::
  "File \<Rightarrow> request_error \<Rightarrow> FileUploadStatus list \<Rightarrow> FileUploadStatus list" where
  "mark_error file err prev =
     map (\<lambda>f. if same_object (file_of f) file
              then f\<lparr>status := js ''error'', message := js_or (detail err) (error_message err)\<rparr>
              else f) prev"

text \<open>
  The \<^verbatim>\<open>for\<close> loop over \<^verbatim>\<open>acceptedFiles\<close>. \<open>sent\<close> holds the requests already sent, for the
  backend; the two counters are \<^verbatim>\<open>successCount\<close> and \<^verbatim>\<open>errorCount\<close>. The result is the effects
  of the loop and the counters at its end, or \<open>None\<close> when an \<^verbatim>\<open>await\<close> never returns.
\<close>

fun for_loop ::
  "upload_backend \<Rightarrow> js_string \<Rightarrow> upload_request list \<Rightarrow> File list \<Rightarrow> nat \<Rightarrow> nat
     \<Rightarrow> effect list \<times> (nat \<times> nat) option" where
  "for_loop srv ns sent [] successCount errorCount = ([], Some (successCount, errorCount))"
| "for_loop srv ns sent (file # rest) successCount errorCount =
     (let req = uploadContract file ns
      in case srv (sent @ [req]) of
           Fulfilled result \<Rightarrow>
             let fileResult = first_result result;
                 later = (if r_status fileResult = js ''success''
                          then for_loop srv ns (sent @ [req]) rest (successCount + 1) errorCount
                          else for_loop srv ns (sent @ [req]) rest successCount (errorCount + 1))
             in (Request req # Response (Fulfilled result)
                   # SetFiles (mark_result file fileResult) # fst later, snd later)
         | Rejected err \<Rightarrow>
             let later = for_loop srv ns (sent @ [req]) rest successCount (errorCount + 1)
             in (Request req # Response (Rejected err)
                   # SetFiles (mark_error file err) # fst later, snd later)
         | Never \<Rightarrow> ([Request req], None))"

text \<open>The message set after the loop, from the two counters.\<close>

definition batch_message :: "nat \<Rightarrow> nat \<Rightarrow> js_string \<Rightarrow> global_message" where
  "batch_message successCount errorCount ns =
     (if errorCount = 0 then
        \<lparr>msg_type = type_success,
         msg_text = decimal successCount @ js '' document''
                    @ (if successCount > 1 then js ''s'' else [])
                    @ js '' uploaded successfully to workspace '' @ [0x22] @ ns @ [0x22]
                    @ js ''!''\<rparr>
      else if successCount = 0 then
        \<lparr>msg_type = type_error,
         msg_text = js ''Failed to upload '' @ decimal errorCount @ js '' document''
                    @ (if errorCount > 1 then js ''s'' else [])
                    @ js ''. Please try again.''\<rparr>
      else
        \<lparr>msg_type = type_error,
         msg_text = decimal successCount @ js '' uploaded, '' @ decimal errorCount
                    @ js '' failed. Please check the errors above.''\<rparr>)"

definition onDrop :: "upload_backend \<Rightarrow> upload_state \<Rightarrow> File list \<Rightarrow> effect list" where
  "onDrop srv s acceptedFiles =
     (if length acceptedFiles = 0 then []
      else if js_trim (namespace s) = [] then
        [SetNamespaceError (js ''Workspace name is required''),
         SetGlobalMessage
           (Some \<lparr>msg_type = type_error,
                  msg_text = js ''Please enter a workspace name before uploading documents.''\<rparr>)]
      else
        let newFiles = map (\<lambda>file. \<lparr>file_of = file, status = js ''uploading'', message = None,
                                      chunksCreated = None\<rparr>) acceptedFiles;
            loop = for_loop srv (namespace s) [] acceptedFiles 0 0
        in [SetGlobalMessage None, SetFiles (\<lambda>prev. prev @ newFiles)] @ fst loop
           @ (case snd loop of
                None \<Rightarrow> []
              | Some (successCount, errorCount) \<Rightarrow>
                  [SetGlobalMessage
                     (Some (batch_message successCount errorCount (namespace s)))]))"


subsection \<open>removeFile and the delete control\<close>

definition removeFile :: "File \<Rightarrow> FileUploadStatus list \<Rightarrow> FileUploadStatus list" where
  "removeFile fileToRemove prev = filter (\<lambda>f. \<not> same_object (file_of f) fileToRemove) prev"

text \<open>
  The list renders a delete button for an item only under
  \<^verbatim>\<open>fileStatus.status !== 'uploading'\<close>; its \<^verbatim>\<open>onClick\<close> is \<^verbatim>\<open>removeFile(fileStatus.file)\<close>.
  \<open>delete_button\<close> is the handler that the rendered item offers, \<open>None\<close> when no button is
  rendered.
\<close>

definition delete_button ::
  "FileUploadStatus \<Rightarrow> (FileUploadStatus list \<Rightarrow> FileUploadStatus list) option" where
  "delete_button fileStatus =
     (if status fileStatus \<noteq> js ''uploading'' then Some (removeFile (file_of fileStatus)) else None)"


text \<open>
  A click on the delete button of an item of the rendered list: the handler of that button
  is applied to the list. An item without a button cannot be clicked.
\<close>

inductive delete_click :: "FileUploadStatus list \<Rightarrow> FileUploadStatus list \<Rightarrow> bool" where
  click: "k < length prev \<Longrightarrow> delete_button (prev ! k) = Some onClick \<Longrightarrow>
            delete_click prev (onClick prev)"


subsection \<open>handleNamespaceChange\<close>

text \<open>
  \<^verbatim>\<open>value.replace(/[^a-zA-Z0-9-_]/g, '')\<close>: the class is negated and holds the ranges
  \<^verbatim>\<open>a-z\<close>, \<^verbatim>\<open>A-Z\<close>, \<^verbatim>\<open>0-9\<close> and the two characters \<^verbatim>\<open>-\<close> and \<^verbatim>\<open>_\<close>; with the \<^verbatim>\<open>g\<close> flag every
  matching code unit is replaced.
\<close>

definition not_alnum_hyphen_underscore :: "code_unit \<Rightarrow> bool" where
  "not_alnum_hyphen_underscore c =
     (\<not> ((0x61 \<le> c \<and> c \<le> 0x7A) \<or> (0x41 \<le> c \<and> c \<le> 0x5A) \<or> (0x30 \<le> c \<and> c \<le> 0x39)
         \<or> c = 0x2D \<or> c = 0x5F))"

primrec replace_all :: "(code_unit \<Rightarrow> bool) \<Rightarrow> js_string \<Rightarrow> js_string \<Rightarrow> js_string" where
  "replace_all matches replacement [] = []"
| "replace_all matches replacement (c # cs) =
     (if matches c then replacement @ replace_all matches replacement cs
      else c # replace_all matches replacement cs)"

definition handleNamespaceChange ::
  "js_string \<Rightarrow> upload_state \<times> local_storage \<Rightarrow> upload_state \<times> local_storage" where
  "handleNamespaceChange v w =
     (let sanitized = replace_all not_alnum_hyphen_underscore [] v
      in (fst w\<lparr>namespace := sanitized, namespaceError := []\<rparr>, setNamespace sanitized (snd w)))"

text \<open>The character class of a workspace identifier, spelled out character by character.\<close>

definition workspace_alphabet :: "code_unit set" where
  "workspace_alphabet =
     set (js ''abcdefghijklmnopqrstuvwxyzABCDEFGHIJKLMNOPQRSTUVWXYZ0123456789-_'')"


section \<open>The query component (ContractQuery)\<close>

text \<open>
  \<^verbatim>\<open>interface Source\<close>, \<^verbatim>\<open>interface QueryRequest\<close>, \<^verbatim>\<open>interface QueryResponse\<close>. The field
  \<^verbatim>\<open>source\<close> of a source is \<open>source_path\<close>; the fields of the request body and of the response
  carry the prefixes \<open>body_\<close> and \<open>response_\<close>, apart from the state cells of the same names.
\<close>

record Source =
  source_num :: int
  document :: js_string
  page :: "int option"
  source_path :: js_string
  excerpt :: js_string

record QueryRequest =
  body_query :: js_string
  body_top_k :: int
  body_namespace :: js_string

record QueryResponse =
  response_answer :: js_string
  response_sources :: "Source list"

definition queryContracts :: "js_string \<Rightarrow> js_string \<Rightarrow> int \<Rightarrow> QueryRequest" where
  "queryContracts q ns k = \<lparr>body_query = q, body_top_k = k, body_namespace = ns\<rparr>"

type_synonym query_backend = "QueryRequest \<Rightarrow> QueryResponse settlement"

text \<open>
  The state cells of the component. \<^verbatim>\<open>const [topK] = useState(10)\<close> keeps no setter, so
  \<^verbatim>\<open>topK\<close> is the constant 10.
\<close>

record query_state =
  query :: js_string
  answer :: js_string
  sources :: "Source list"
  loading :: bool
  error :: js_string

definition topK :: int where
  "topK = 10"

text \<open>
  \<^verbatim>\<open>handleSubmit\<close>, with the requests it sends. \<^verbatim>\<open>!namespace\<close> holds of \<^verbatim>\<open>null\<close> and of the
  empty string; \<open>missing\<close> is what both do. The \<^verbatim>\<open>finally\<close> block runs once the request
  has settled.
\<close>

definition rejection_text :: "request_error \<Rightarrow> js_string" where
  "rejection_text err =
     (case js_or (js_or (detail err) (error_message err)) (Some (js ''Failed to get answer'')) of
        Some t \<Rightarrow> t
      | None \<Rightarrow> [])"

definition handleSubmit ::
  "query_backend \<Rightarrow> local_storage \<Rightarrow> query_state \<Rightarrow> query_state \<times> QueryRequest list" where
  "handleSubmit srv ls s =
     (if js_trim (query s) = [] then (s, [])
      else
        let missing = (s\<lparr>error := js ''Please upload documents first to set a workspace name.''\<rparr>,
                       [])
        in (case getNamespace ls of
              None \<Rightarrow> missing
            | Some ns \<Rightarrow>
                if ns = [] then missing
                else
                  let s1 = s\<lparr>loading := True, answer := [], sources := [], error := []\<rparr>;
                      req = queryContracts (query s) ns topK
                  in (case srv req of
                        Fulfilled result \<Rightarrow>
                          (s1\<lparr>answer := response_answer result,
                              sources := response_sources result, loading := False\<rparr>, [req])
                      | Rejected err \<Rightarrow>
                          (s1\<lparr>error := rejection_text err, loading := False\<rparr>, [req])
                      | Never \<Rightarrow> (s1, [req]))))"


section \<open>Observations of a run\<close>

text \<open>
  What a run of \<^verbatim>\<open>onDrop\<close> shows from outside: the requests it sent, the settlements it
  was resumed with, the messages it displayed, the successive values of the file list (one
  after each call of \<^verbatim>\<open>setFiles\<close>), and the number of requests sent and not yet settled.
\<close>

fun requests_of :: "effect list \<Rightarrow> upload_request list" where
  "requests_of [] = []"
| "requests_of (Request r # es) = r # requests_of es"
| "requests_of (e # es) = requests_of es"

fun responses_of :: "effect list \<Rightarrow> UploadResponse settlement list" where
  "responses_of [] = []"
| "responses_of (Response r # es) = r # responses_of es"
| "responses_of (e # es) = responses_of es"

fun messages_of :: "effect list \<Rightarrow> global_message list" where
  "messages_of [] = []"
| "messages_of (SetGlobalMessage (Some m) # es) = m # messages_of es"
| "messages_of (e # es) = messages_of es"

fun batch_history :: "effect list \<Rightarrow> FileUploadStatus list \<Rightarrow> FileUploadStatus list list" where
  "batch_history [] b = []"
| "batch_history (SetFiles updater # es) b = updater b # batch_history es (updater b)"
| "batch_history (e # es) b = batch_history es b"

fun is_request :: "effect \<Rightarrow> bool" where
  "is_request (Request r) = True"
| "is_request e = False"

definition in_flight :: "effect list \<Rightarrow> int" where
  "in_flight es = int (length (requests_of es)) - int (length (responses_of es))"

text \<open>A settlement that the loop counts as an error.\<close>

fun failed :: "UploadResponse settlement \<Rightarrow> bool" where
  "failed (Fulfilled result) = (r_status (first_result result) \<noteq> js ''success'')"
| "failed (Rejected err) = True"
| "failed Never = False"

text \<open>
  The updater that the loop passes to \<^verbatim>\<open>setFiles\<close> once the request for a file has settled
  (for a request that never settles there is none, and the list stays as it is).
\<close>

fun on_settled ::
  "File \<Rightarrow> UploadResponse settlement \<Rightarrow> FileUploadStatus list \<Rightarrow> FileUploadStatus list" where
  "on_settled file (Fulfilled result) = mark_result file (first_result result)"
| "on_settled file (Rejected err) = mark_error file err"
| "on_settled file Never = (\<lambda>prev. prev)"


text \<open>The item that \<^verbatim>\<open>onDrop\<close> creates for a file.\<close>

definition pending :: "File \<Rightarrow> FileUploadStatus" where
  "pending file = \<lparr>file_of = file, status = js ''uploading'', message = None, chunksCreated = None\<rparr>"

text \<open>
  The effects of the loop of a run, and the item that the updater of a settled request makes
  of the pending item of its file.
\<close>

definition loop_of :: "upload_backend \<Rightarrow> upload_state \<Rightarrow> File list \<Rightarrow> effect list" where
  "loop_of srv s fs = fst (for_loop srv (namespace s) [] fs 0 0)"



section \<open>A session\<close>

text \<open>
  A component that has just been mounted, with nothing in \<^verbatim>\<open>localStorage\<close>; the workspace
  \<^verbatim>\<open>acme\<close>; three files, the first two with the same name and bytes; a backend that accepts
  every upload but the second, one that reports an error for the second file and rejects
  the third, and one that answers without \<^verbatim>\<open>results\<close>; a list on display;
  two questions and a backend that answers with two sources.
\<close>

definition s0 :: upload_state where
  "s0 = \<lparr>files = [], globalMessage = None, namespace = [], namespaceError = []\<rparr>"

definition acme :: upload_state where
  "acme = \<lparr>files = [], globalMessage = None, namespace = js ''acme'', namespaceError = []\<rparr>"

definition lease :: File where
  "lease = \<lparr>obj_ref = 1, file_name = js ''lease.pdf'', file_bytes = [0x25, 0x50, 0x44, 0x46]\<rparr>"

definition lease_again :: File where
  "lease_again = \<lparr>obj_ref = 2, file_name = js ''lease.pdf'', file_bytes = [0x25, 0x50, 0x44, 0x46]\<rparr>"

definition nda :: File where
  "nda = \<lparr>obj_ref = 3, file_name = js ''nda.pdf'', file_bytes = [0x25, 0x50, 0x44, 0x46, 0x2D]\<rparr>"

definition processed :: UploadResponse where
  "processed =
     \<lparr>response_message = js ''Processed 1 file'', total_chunks = Some 7,
      results = Some [\<lparr>filename = Some (js ''lease.pdf''), r_status = js ''success'',
                       chunks_created = Some 7, r_message = None\<rparr>]\<rparr>"

definition refused :: request_error where
  "refused = \<lparr>detail = Some (js ''Only PDF files are supported''),
              error_message = Some (js ''Request failed with status code 400'')\<rparr>"

definition fake_backend :: upload_backend where
  "fake_backend sent = (if length sent = 2 then Rejected refused else Fulfilled processed)"

definition unreadable :: UploadResponse where
  "unreadable =
     \<lparr>response_message = js ''Processed 1 file'', total_chunks = Some 0,
      results = Some [\<lparr>filename = Some (js ''lease.pdf''), r_status = js ''error'',
                       chunks_created = None,
                       r_message = Some (js ''No text could be extracted'')\<rparr>]\<rparr>"

definition picky_backend :: upload_backend where
  "picky_backend sent =
     (if length sent = 2 then Fulfilled unreadable
      else if length sent = 3 then Rejected refused else Fulfilled processed)"

definition bare_backend :: upload_backend where
  "bare_backend sent =
     (if length sent = 1
      then Fulfilled \<lparr>response_message = js ''Processed'', total_chunks = Some 12, results = None\<rparr>
      else Fulfilled \<lparr>response_message = js ''Processed'', total_chunks = Some 0, results = Some []\<rparr>)"

definition shown :: "FileUploadStatus list" where
  "shown =
     [\<lparr>file_of = lease, status = js ''success'',
       message = Some (js ''Processed successfully! 7 sections analyzed.''), chunksCreated = Some 7\<rparr>,
      \<lparr>file_of = lease_again, status = js ''uploading'', message = None, chunksCreated = None\<rparr>,
      \<lparr>file_of = nda, status = js ''error'', message = Some (js ''Only PDF files are supported''),
       chunksCreated = None\<rparr>]"

definition term_question :: query_state where
  "term_question = \<lparr>query = js ''what is the term?'', answer = js ''An earlier answer'',
                    sources = [], loading = False, error = []\<rparr>"

definition blank_question :: query_state where
  "blank_question = \<lparr>query = js ''   '', answer = js ''An earlier answer'',
                     sources = [], loading = False, error = []\<rparr>"

definition two_sources :: QueryResponse where
  "two_sources =
     \<lparr>response_answer = js ''Two years.'',
      response_sources =
        [\<lparr>source_num = 1, document = js ''lease.pdf'', page = Some 3,
          source_path = js ''uploads/lease.pdf'', excerpt = js ''The term is two years.''\<rparr>,
         \<lparr>source_num = 2, document = js ''nda.pdf'', page = None,
          source_path = js ''uploads/nda.pdf'', excerpt = js ''for a term of two years''\<rparr>]\<rparr>"

definition answering :: query_backend where
  "answering req = Fulfilled two_sources"


section \<open>Properties\<close>

subsection \<open>Strings\<close>

lemma status_literals:
  "js ''success'' \<noteq> js ''uploading''" "js ''error'' \<noteq> js ''uploading''"
  "js ''success'' \<noteq> js ''error''" "js ''uploading'' \<noteq> js ''success''"
  "js ''uploading'' \<noteq> js ''error''" "js ''error'' \<noteq> js ''success''"
  by (simp_all add: js_def)

lemma js_empty: "js t = [] \<longleftrightarrow> t = []"
  by (simp add: js_def)

lemma replace_all_empty: "replace_all p [] xs = filter (\<lambda>c. \<not> p c) xs"
  by (induction xs) simp_all

text \<open>The class of the regular expression is the set of the 64 characters.\<close>

lemma alphabet_unat:
  "c \<in> workspace_alphabet \<longleftrightarrow>
     (97 \<le> unat c \<and> unat c \<le> 122) \<or> (65 \<le> unat c \<and> unat c \<le> 90)
       \<or> (48 \<le> unat c \<and> unat c \<le> 57) \<or> unat c = 45 \<or> unat c = 95"
  unfolding workspace_alphabet_def js_def
  apply (simp add: word_unat_eq_iff)
  apply arith
  done

lemma class_alphabet: "not_alnum_hyphen_underscore c \<longleftrightarrow> c \<notin> workspace_alphabet"
  unfolding not_alnum_hyphen_underscore_def alphabet_unat
  by (simp add: word_le_nat_alt word_unat_eq_iff)

lemma alphabet_not_whitespace: "c \<in> workspace_alphabet \<Longrightarrow> \<not> js_whitespace c"
  unfolding alphabet_unat js_whitespace_def
  by (simp add: word_le_nat_alt word_unat_eq_iff) arith

text \<open>A name made of these characters has nothing to trim.\<close>

lemma js_trim_workspace_id:
  assumes "set v \<subseteq> workspace_alphabet"
  shows "js_trim v = v"
proof (cases "v = []")
  case True
  then show ?thesis by (simp add: js_trim_def)
next
  case False
  then have "hd v \<in> set v" and "last v \<in> set v" by simp_all
  with assms have "\<not> js_whitespace (hd v)" and "\<not> js_whitespace (last v)"
    by (auto dest: alphabet_not_whitespace)
  with False have "dropWhile js_whitespace v = v"
    and "dropWhile js_whitespace (rev v) = rev v"
    by (simp_all add: dropWhile_eq_self_iff hd_rev)
  then show ?thesis by (simp add: js_trim_def)
qed

lemma sanitized_workspace_bound:
  "js_trim (namespace (fst (handleNamespaceChange x w)))
     = namespace (fst (handleNamespaceChange x w))"
  by (rule js_trim_workspace_id)
    (auto simp: handleNamespaceChange_def Let_def replace_all_empty class_alphabet)


subsection \<open>Lists of effects\<close>

lemma requests_of_append: "requests_of (xs @ ys) = requests_of xs @ requests_of ys"
  by (induction xs rule: requests_of.induct) simp_all

lemma responses_of_append: "responses_of (xs @ ys) = responses_of xs @ responses_of ys"
  by (induction xs rule: responses_of.induct) simp_all

lemma messages_of_append: "messages_of (xs @ ys) = messages_of xs @ messages_of ys"
  by (induction xs rule: messages_of.induct) simp_all

lemma in_flight_append: "in_flight (xs @ ys) = in_flight xs + in_flight ys"
  by (simp add: in_flight_def requests_of_append responses_of_append)

lemma batch_history_append:
  "batch_history (xs @ ys) b = batch_history xs b @ batch_history ys (last (b # batch_history xs b))"
proof (induction xs arbitrary: b)
  case Nil
  then show ?case by simp
next
  case (Cons e xs)
  then show ?case by (cases e) simp_all
qed

lemma run_last_message: "globalMessage (run (es @ [SetGlobalMessage m]) s) = m"
  by (simp add: run_def)

lemma quiet_tail:
  "in_flight (take j (case fin of None \<Rightarrow> [] | Some (sc, ec) \<Rightarrow> [SetGlobalMessage (m sc ec)])) = 0"
  by (cases j) (simp_all add: in_flight_def split: option.splits)


subsection \<open>The loop\<close>

lemma loop_requests_prefix:
  "prefix (requests_of (fst (for_loop srv ns sent fs sc ec))) (map (\<lambda>f. uploadContract f ns) fs)"
  by (induction fs arbitrary: sent sc ec) (simp_all add: Let_def split: settlement.splits)

lemma loop_completes:
  assumes "\<forall>h. srv h \<noteq> Never"
  shows "requests_of (fst (for_loop srv ns sent fs sc ec)) = map (\<lambda>f. uploadContract f ns) fs
         \<and> snd (for_loop srv ns sent fs sc ec) \<noteq> None
         \<and> length (responses_of (fst (for_loop srv ns sent fs sc ec))) = length fs"
  using assms
  by (induction fs arbitrary: sent sc ec) (simp_all add: Let_def split: settlement.splits)

lemma loop_counters:
  "snd (for_loop srv ns sent fs sc ec) = Some (sc', ec') \<Longrightarrow>
     length (responses_of (fst (for_loop srv ns sent fs sc ec))) = length fs
     \<and> ec' = ec + length (filter failed (responses_of (fst (for_loop srv ns sent fs sc ec))))
     \<and> sc' + ec' = sc + ec + length fs"
proof (induction fs arbitrary: sent sc ec)
  case Nil
  then show ?case by simp
next
  case (Cons f fs)
  show ?case
  proof (cases "srv (sent @ [uploadContract f ns])")
    case (Fulfilled result)
    with Cons.prems Cons.IH show ?thesis
      by (cases "r_status (first_result result) = js ''success''") (fastforce simp: Let_def)+
  next
    case (Rejected err)
    with Cons.prems Cons.IH show ?thesis by (fastforce simp: Let_def)
  next
    case Never
    with Cons.prems show ?thesis by simp
  qed
qed

lemma loop_starts_with_request:
  "fs \<noteq> [] \<Longrightarrow> \<exists>es. fst (for_loop srv ns sent fs sc ec) = Request (uploadContract (hd fs) ns) # es"
  by (cases fs) (simp_all add: Let_def split: settlement.splits)

lemma loop_next_request:
  "length (responses_of (fst (for_loop srv ns sent fs sc ec))) < length fs \<Longrightarrow>
     length (requests_of (fst (for_loop srv ns sent fs sc ec)))
       = Suc (length (responses_of (fst (for_loop srv ns sent fs sc ec))))"
  by (induction fs arbitrary: sent sc ec) (auto simp: Let_def split: settlement.splits if_splits)

lemma loop_responses_le:
  "length (responses_of (fst (for_loop srv ns sent fs sc ec)))
     \<le> length (requests_of (fst (for_loop srv ns sent fs sc ec)))"
  by (induction fs arbitrary: sent sc ec) (simp_all add: Let_def split: settlement.splits)

lemma loop_no_never: "Never \<notin> set (responses_of (fst (for_loop srv ns sent fs sc ec)))"
  by (induction fs arbitrary: sent sc ec) (simp_all add: Let_def split: settlement.splits)

lemma loop_messages: "messages_of (fst (for_loop srv ns sent fs sc ec)) = []"
  by (induction fs arbitrary: sent sc ec) (simp_all add: Let_def split: settlement.splits)

lemma loop_in_flight:
  "in_flight (take k (fst (for_loop srv ns sent fs sc ec))) \<in> {0, 1}"
proof (induction fs arbitrary: sent sc ec k)
  case Nil
  then show ?case by (simp add: in_flight_def)
next
  case (Cons f fs)
  have step: "in_flight (take k (Request r # Response p # SetFiles u # es)) \<in> {0, 1}"
    if "\<And>j. in_flight (take j es) \<in> {0, 1}" for r p u es
  proof (cases k)
    case 0
    then show ?thesis by (simp add: in_flight_def)
  next
    case (Suc k1)
    show ?thesis
    proof (cases k1)
      case 0
      with Suc show ?thesis by (simp add: in_flight_def)
    next
      case (Suc k2)
      show ?thesis
      proof (cases k2)
        case 0
        with \<open>k = Suc k1\<close> \<open>k1 = Suc k2\<close> show ?thesis by (simp add: in_flight_def)
      next
        case (Suc k3)
        with \<open>k = Suc k1\<close> \<open>k1 = Suc k2\<close> that [of k3] show ?thesis by (simp add: in_flight_def)
      qed
    qed
  qed
  show ?case
  proof (cases "srv (sent @ [uploadContract f ns])")
    case (Fulfilled result)
    define later where "later =
      (if r_status (first_result result) = js ''success''
       then for_loop srv ns (sent @ [uploadContract f ns]) fs (sc + 1) ec
       else for_loop srv ns (sent @ [uploadContract f ns]) fs sc (ec + 1))"
    have "fst (for_loop srv ns sent (f # fs) sc ec) =
            Request (uploadContract f ns) # Response (Fulfilled result)
              # SetFiles (mark_result f (first_result result)) # fst later"
      by (simp add: Fulfilled Let_def later_def)
    moreover have "\<And>j. in_flight (take j (fst later)) \<in> {0, 1}"
      unfolding later_def using Cons.IH by (cases "r_status (first_result result) = js ''success''") simp_all
    ultimately show ?thesis using step by metis
  next
    case (Rejected err)
    have "fst (for_loop srv ns sent (f # fs) sc ec) =
            Request (uploadContract f ns) # Response (Rejected err)
              # SetFiles (mark_error f err)
              # fst (for_loop srv ns (sent @ [uploadContract f ns]) fs sc (ec + 1))"
      by (simp add: Rejected Let_def)
    then show ?thesis using step Cons.IH by metis
  next
    case Never
    then show ?thesis by (cases k) (simp_all add: in_flight_def)
  qed
qed

text \<open>Each value of the file list is the updater of a settled request applied to the one before.\<close>

lemma loop_history:
  "length (batch_history (fst (for_loop srv ns sent fs sc ec)) b)
     = length (responses_of (fst (for_loop srv ns sent fs sc ec)))
   \<and> length (responses_of (fst (for_loop srv ns sent fs sc ec))) \<le> length fs
   \<and> (\<forall>k < length (responses_of (fst (for_loop srv ns sent fs sc ec))).
        batch_history (fst (for_loop srv ns sent fs sc ec)) b ! k
          = on_settled (fs ! k) (responses_of (fst (for_loop srv ns sent fs sc ec)) ! k)
              ((b # batch_history (fst (for_loop srv ns sent fs sc ec)) b) ! k))"
proof (induction fs arbitrary: sent sc ec b)
  case Nil
  then show ?case by simp
next
  case (Cons f fs)
  show ?case
  proof (cases "srv (sent @ [uploadContract f ns])")
    case (Fulfilled result)
    then show ?thesis using Cons.IH
      by (auto simp: Let_def nth_Cons split: nat.splits)
  next
    case (Rejected err)
    then show ?thesis using Cons.IH
      by (auto simp: Let_def nth_Cons split: nat.splits)
  next
    case Never
    then show ?thesis by simp
  qed
qed


subsection \<open>The updaters\<close>



lemma on_settled_files: "map file_of (on_settled f p b) = map file_of b"
  by (cases p) (simp_all add: mark_result_def mark_error_def comp_def)

lemma on_settled_length: "length (on_settled f p b) = length b"
  using on_settled_files [of f p b] by (metis length_map)

lemma on_settled_nth_fulfilled:
  assumes "j < length b" and "file_of (b ! j) = f"
  shows "on_settled f (Fulfilled result) b ! j =
           (b ! j)\<lparr>status := r_status (first_result result),
                   message := (if r_status (first_result result) = js ''success''
                               then Some (js ''Processed successfully! ''
                                          @ template_number (chunks_created (first_result result))
                                          @ js '' sections analyzed.'')
                               else r_message (first_result result)),
                   chunksCreated := chunks_created (first_result result)\<rparr>"
  using assms by (simp add: mark_result_def same_object_def)

lemma on_settled_nth_rejected:
  assumes "j < length b" and "file_of (b ! j) = f"
  shows "on_settled f (Rejected err) b ! j =
           (b ! j)\<lparr>status := js ''error'', message := js_or (detail err) (error_message err)\<rparr>"
  using assms by (simp add: mark_error_def same_object_def)

lemma loop_history_files:
  "k < length (batch_history (fst (for_loop srv ns sent fs sc ec)) b) \<Longrightarrow>
     map file_of (batch_history (fst (for_loop srv ns sent fs sc ec)) b ! k) = map file_of b"
proof (induction k rule: less_induct)
  case (less k)
  let ?H = "batch_history (fst (for_loop srv ns sent fs sc ec)) b"
  let ?R = "responses_of (fst (for_loop srv ns sent fs sc ec))"
  from less.prems loop_history [of srv ns sent fs sc ec b]
  have step: "?H ! k = on_settled (fs ! k) (?R ! k) ((b # ?H) ! k)" by simp
  show ?case
  proof (cases k)
    case 0
    with step show ?thesis by (simp add: on_settled_files)
  next
    case (Suc j)
    with less.prems have "j < k" "j < length ?H" by simp_all
    with less.IH have "map file_of (?H ! j) = map file_of b" by blast
    with step Suc show ?thesis by (simp add: on_settled_files)
  qed
qed

lemma filter_without_nth:
  assumes "k < length b" and "\<not> P (b ! k)"
  shows "filter P (take k b @ drop (Suc k) b) = filter P b"
proof -
  have "filter P b = filter P (take k b @ b ! k # drop (Suc k) b)"
    using id_take_nth_drop [OF assms(1)] by simp
  with assms(2) show ?thesis by simp
qed

lemma filter_out_nth:
  assumes "k < length b" and "distinct (map g b)"
  shows "filter (\<lambda>x. g x \<noteq> g (b ! k)) b = take k b @ drop (Suc k) b"
proof -
  have split: "b = take k b @ b ! k # drop (Suc k) b"
    using assms(1) by (rule id_take_nth_drop)
  then have "distinct (map g (take k b) @ g (b ! k) # map g (drop (Suc k) b))"
    using assms(2) by (metis list.simps(9) map_append)
  then have "g (b ! k) \<notin> g ` set (take k b)" and "g (b ! k) \<notin> g ` set (drop (Suc k) b)"
    by auto
  then have "filter (\<lambda>x. g x \<noteq> g (b ! k)) (take k b) = take k b"
    and "filter (\<lambda>x. g x \<noteq> g (b ! k)) (drop (Suc k) b) = drop (Suc k) b"
    by (auto intro!: filter_True simp: image_iff)
  then have "filter (\<lambda>x. g x \<noteq> g (b ! k)) (take k b @ b ! k # drop (Suc k) b)
               = take k b @ drop (Suc k) b"
    by simp
  with split show ?thesis by simp
qed


subsection \<open>A run that passes the two guards\<close>

lemma onDrop_shape:
  assumes "fs \<noteq> []" and "js_trim (namespace s) \<noteq> []"
  shows "onDrop srv s fs =
           [SetGlobalMessage None, SetFiles (\<lambda>prev. prev @ map pending fs)] @ loop_of srv s fs
           @ (case snd (for_loop srv (namespace s) [] fs 0 0) of
                None \<Rightarrow> []
              | Some (sc, ec) \<Rightarrow> [SetGlobalMessage (Some (batch_message sc ec (namespace s)))])"
proof -
  have "(\<lambda>file. \<lparr>file_of = file, status = js ''uploading'', message = None, chunksCreated = None\<rparr>) = pending"
    by (rule ext) (simp add: pending_def)
  with assms show ?thesis by (simp add: onDrop_def loop_of_def Let_def)
qed

lemma onDrop_requests:
  assumes "fs \<noteq> []" and "js_trim (namespace s) \<noteq> []"
  shows "requests_of (onDrop srv s fs) = requests_of (loop_of srv s fs)"
  by (simp add: onDrop_shape [OF assms] requests_of_append split: option.splits)

lemma onDrop_responses:
  assumes "fs \<noteq> []" and "js_trim (namespace s) \<noteq> []"
  shows "responses_of (onDrop srv s fs) = responses_of (loop_of srv s fs)"
  by (simp add: onDrop_shape [OF assms] responses_of_append split: option.splits)

lemma onDrop_history:
  assumes "fs \<noteq> []" and "js_trim (namespace s) \<noteq> []"
  shows "batch_history (onDrop srv s fs) b =
           (b @ map pending fs) # batch_history (loop_of srv s fs) (b @ map pending fs)"
  by (simp add: onDrop_shape [OF assms] batch_history_append split: option.splits)

lemma onDrop_messages:
  assumes "fs \<noteq> []" and "js_trim (namespace s) \<noteq> []"
  shows "messages_of (onDrop srv s fs) =
           (case snd (for_loop srv (namespace s) [] fs 0 0) of
              None \<Rightarrow> []
            | Some (sc, ec) \<Rightarrow> [batch_message sc ec (namespace s)])"
  by (simp add: onDrop_shape [OF assms] messages_of_append loop_of_def loop_messages
        split: option.splits)

lemma onDrop_nonempty:
  "k < length (responses_of (onDrop srv s fs)) \<Longrightarrow> fs \<noteq> []"
  by (auto simp: onDrop_def)


lemma settled_step:
  assumes ns: "js_trim (namespace s) \<noteq> []"
    and k: "k < length (responses_of (onDrop srv s fs))"
  shows "k < length fs"
    and "batch_history (onDrop srv s fs) (files s) ! Suc k
           = on_settled (fs ! k) (responses_of (onDrop srv s fs) ! k)
               (batch_history (onDrop srv s fs) (files s) ! k)"
    and "Suc k < length (batch_history (onDrop srv s fs) (files s))"
    and "map file_of (batch_history (onDrop srv s fs) (files s) ! k) = map file_of (files s) @ fs"
    and "responses_of (onDrop srv s fs) ! k \<noteq> Never"
proof -
  have fs: "fs \<noteq> []" using k by (rule onDrop_nonempty)
  let ?b0 = "files s @ map pending fs"
  let ?L = "fst (for_loop srv (namespace s) [] fs 0 0)"
  have R: "responses_of (onDrop srv s fs) = responses_of ?L"
    using onDrop_responses [OF fs ns] by (simp add: loop_of_def)
  have H: "batch_history (onDrop srv s fs) (files s) = ?b0 # batch_history ?L ?b0"
    using onDrop_history [OF fs ns] by (simp add: loop_of_def)
  note hist = loop_history [of srv "namespace s" "[]" fs 0 0 ?b0]
  from k R hist show "k < length fs" by simp
  from k R hist show "batch_history (onDrop srv s fs) (files s) ! Suc k
           = on_settled (fs ! k) (responses_of (onDrop srv s fs) ! k)
               (batch_history (onDrop srv s fs) (files s) ! k)"
    unfolding H R by simp
  from k R hist show "Suc k < length (batch_history (onDrop srv s fs) (files s))"
    unfolding H by simp
  have "map file_of ((?b0 # batch_history ?L ?b0) ! k) = map file_of ?b0"
  proof (cases k)
    case 0
    then show ?thesis by simp
  next
    case (Suc j)
    with k R hist have "j < length (batch_history ?L ?b0)" by simp
    from loop_history_files [OF this] Suc show ?thesis by simp
  qed
  then show "map file_of (batch_history (onDrop srv s fs) (files s) ! k) = map file_of (files s) @ fs"
    unfolding H by (simp add: pending_def comp_def)
  from k R loop_no_never [of srv "namespace s" "[]" fs 0 0]
  show "responses_of (onDrop srv s fs) ! k \<noteq> Never"
    by (metis nth_mem)
qed

lemma settled_position:
  assumes ns: "js_trim (namespace s) \<noteq> []"
    and k: "k < length (responses_of (onDrop srv s fs))"
  shows "length (files s) + k < length (batch_history (onDrop srv s fs) (files s) ! k)"
    and "file_of (batch_history (onDrop srv s fs) (files s) ! k ! (length (files s) + k)) = fs ! k"
proof -
  note st = settled_step [OF ns k]
  let ?b = "batch_history (onDrop srv s fs) (files s) ! k"
  have len: "length ?b = length (files s) + length fs"
    using st(4) by (metis length_append length_map)
  with st(1) show pos: "length (files s) + k < length ?b" by simp
  have "file_of (?b ! (length (files s) + k)) = map file_of ?b ! (length (files s) + k)"
    using pos by simp
  also have "\<dots> = fs ! k" unfolding st(4) by (simp add: nth_append)
  finally show "file_of (?b ! (length (files s) + k)) = fs ! k" .
qed







subsection \<open>The session\<close>

lemma three_files: "[lease, lease_again, nda] \<noteq> []"
  by simp

lemma acme_bound: "js_trim (namespace acme) \<noteq> []"
  by (simp add: acme_def js_trim_def js_def js_whitespace_def)

lemma fake_backend_settles: "\<forall>h. fake_backend h \<noteq> Never"
  by (simp add: fake_backend_def)

lemma first_result_processed:
  "first_result processed = \<lparr>filename = Some (js ''lease.pdf''), r_status = js ''success'',
                       chunks_created = Some 7, r_message = None\<rparr>"
  by (simp add: first_result_def processed_def)

lemma processed_message:
  "js ''Processed successfully! '' @ template_number (Some 7) @ js '' sections analyzed.''
     = js ''Processed successfully! 7 sections analyzed.''"
  by (simp add: js_def template_number_def)

lemma acme_run:
  "onDrop fake_backend acme [lease, lease_again, nda] =
     [SetGlobalMessage None,
      SetFiles (\<lambda>prev. prev @ map pending [lease, lease_again, nda]),
      Request (uploadContract lease (js ''acme'')),
      Response (Fulfilled processed),
      SetFiles (mark_result lease (first_result processed)),
      Request (uploadContract lease_again (js ''acme'')),
      Response (Rejected refused),
      SetFiles (mark_error lease_again refused),
      Request (uploadContract nda (js ''acme'')),
      Response (Fulfilled processed),
      SetFiles (mark_result nda (first_result processed)),
      SetGlobalMessage (Some (batch_message 2 1 (js ''acme'')))]"
proof -
  have ns: "namespace acme = js ''acme''" by (simp add: acme_def)
  have "for_loop fake_backend (js ''acme'') [] [lease, lease_again, nda] 0 0 =
     ([Request (uploadContract lease (js ''acme'')),
      Response (Fulfilled processed),
      SetFiles (mark_result lease (first_result processed)),
      Request (uploadContract lease_again (js ''acme'')),
      Response (Rejected refused),
      SetFiles (mark_error lease_again refused),
      Request (uploadContract nda (js ''acme'')),
      Response (Fulfilled processed),
      SetFiles (mark_result nda (first_result processed))], Some (2, 1))"
    by (simp add: fake_backend_def Let_def first_result_processed)
  then show ?thesis
    using onDrop_shape [OF _ acme_bound, of "[lease, lease_again, nda]" fake_backend]
    by (simp add: ns loop_of_def)
qed

lemma acme_responses:
  "responses_of (onDrop fake_backend acme [lease, lease_again, nda])
     = [Fulfilled processed, Rejected refused, Fulfilled processed]"
  by (simp add: acme_run)

lemma picky_responses:
  "responses_of (onDrop picky_backend acme [lease, lease_again, nda])
     = [Fulfilled processed, Fulfilled unreadable, Rejected refused]"
proof -
  have ne: "[lease, lease_again, nda] \<noteq> []" by simp
  show ?thesis
    unfolding onDrop_responses [OF ne acme_bound] loop_of_def
    by (simp add: picky_backend_def Let_def)
qed

lemma bare_run:
  "responses_of (onDrop bare_backend acme [lease, nda])
     = [Fulfilled \<lparr>response_message = js ''Processed'', total_chunks = Some 12, results = None\<rparr>,
        Fulfilled \<lparr>response_message = js ''Processed'', total_chunks = Some 0, results = Some []\<rparr>]"
proof -
  have ne: "[lease, nda] \<noteq> []" by simp
  show ?thesis
    unfolding onDrop_responses [OF ne acme_bound] loop_of_def
    by (simp add: bare_backend_def Let_def)
qed


section \<open>The claims\<close>

text \<open>
  C1. For a non-empty list of accepted files and a workspace that passes the guard of
  \<^verbatim>\<open>onDrop\<close> (its trimmed name is not empty; by \<open>sanitized_workspace_bound\<close> this is
  non-emptiness for every name that \<^verbatim>\<open>handleNamespaceChange\<close> has stored): the effects that
  come before the first request already leave the list extended by one item per file, in the
  order of the files, each with status \<^verbatim>\<open>uploading\<close>; the requests sent are, in order, those
  of a prefix of the files, each a form with that one file and the workspace in its header,
  and those of all files when every request settles; and at no moment of the run is more
  than one request sent and not yet settled.
\<close>

theorem onDrop_pending_then_sequential:
  assumes "acceptedFiles \<noteq> []" and "js_trim (namespace s) \<noteq> []"
  shows "files (run (takeWhile (\<lambda>e. \<not> is_request e) (onDrop srv s acceptedFiles)) s)
           = files s @ map (\<lambda>file. \<lparr>file_of = file, status = js ''uploading'', message = None,
                                     chunksCreated = None\<rparr>) acceptedFiles
         \<and> prefix (requests_of (onDrop srv s acceptedFiles))
             (map (\<lambda>file. \<lparr>form_files = [file], x_namespace = namespace s\<rparr>) acceptedFiles)
         \<and> ((\<forall>h. srv h \<noteq> Never) \<longrightarrow>
              requests_of (onDrop srv s acceptedFiles)
                = map (\<lambda>file. \<lparr>form_files = [file], x_namespace = namespace s\<rparr>) acceptedFiles)
         \<and> (\<forall>k. in_flight (take k (onDrop srv s acceptedFiles)) = 0
                \<or> in_flight (take k (onDrop srv s acceptedFiles)) = 1)"
proof -
  have req: "(\<lambda>file. uploadContract file (namespace s))
               = (\<lambda>file. \<lparr>form_files = [file], x_namespace = namespace s\<rparr>)"
    by (rule ext) (simp add: uploadContract_def)
  note shape = onDrop_shape [OF assms, of srv]
  obtain es where es: "loop_of srv s acceptedFiles
      = Request (uploadContract (hd acceptedFiles) (namespace s)) # es"
    unfolding loop_of_def using loop_starts_with_request [OF assms(1)] by blast
  have a: "files (run (takeWhile (\<lambda>e. \<not> is_request e) (onDrop srv s acceptedFiles)) s)
           = files s @ map (\<lambda>file. \<lparr>file_of = file, status = js ''uploading'', message = None,
                                     chunksCreated = None\<rparr>) acceptedFiles"
    by (simp add: shape es run_def pending_def)
  have b: "prefix (requests_of (onDrop srv s acceptedFiles))
             (map (\<lambda>file. \<lparr>form_files = [file], x_namespace = namespace s\<rparr>) acceptedFiles)"
    using loop_requests_prefix [of srv "namespace s" "[]" acceptedFiles 0 0]
    by (simp add: onDrop_requests [OF assms] loop_of_def req)
  have c: "requests_of (onDrop srv s acceptedFiles)
          = map (\<lambda>file. \<lparr>form_files = [file], x_namespace = namespace s\<rparr>) acceptedFiles"
    if "\<forall>h. srv h \<noteq> Never"
    using loop_completes [OF that, of "namespace s" "[]" acceptedFiles 0 0]
    by (simp add: onDrop_requests [OF assms] loop_of_def req)
  have d: "in_flight (take k (onDrop srv s acceptedFiles)) = 0
          \<or> in_flight (take k (onDrop srv s acceptedFiles)) = 1" for k
  proof (cases "k < 2")
    case True
    then have "k = 0 \<or> k = 1" by auto
    then show ?thesis by (auto simp: shape in_flight_def)
  next
    case False
    then obtain j where k: "k = Suc (Suc j)" by (metis Suc_lessI less_2_cases_iff not0_implies_Suc)
    let ?T = "case snd (for_loop srv (namespace s) [] acceptedFiles 0 0) of
                None \<Rightarrow> []
              | Some (sc, ec) \<Rightarrow> [SetGlobalMessage (Some (batch_message sc ec (namespace s)))]"
    have "take k (onDrop srv s acceptedFiles)
            = [SetGlobalMessage None, SetFiles (\<lambda>prev. prev @ map pending acceptedFiles)]
              @ take j (loop_of srv s acceptedFiles)
              @ take (j - length (loop_of srv s acceptedFiles)) ?T"
      unfolding shape k by simp
    moreover have "in_flight [SetGlobalMessage None,
                     SetFiles (\<lambda>prev. prev @ map pending acceptedFiles)] = 0"
      by (simp add: in_flight_def)
    ultimately have "in_flight (take k (onDrop srv s acceptedFiles))
            = in_flight (take j (loop_of srv s acceptedFiles))"
      by (simp only: in_flight_append quiet_tail)
    then show ?thesis using loop_in_flight [of j srv "namespace s" "[]" acceptedFiles 0 0]
      by (simp add: loop_of_def)
  qed
  from a b c d show ?thesis by blast
qed

theorem onDrop_pending_then_sequential_witness:
  "files (run (takeWhile (\<lambda>e. \<not> is_request e) (onDrop fake_backend acme [lease, lease_again, nda]))
        acme)
     = [\<lparr>file_of = lease, status = js ''uploading'', message = None, chunksCreated = None\<rparr>,
        \<lparr>file_of = lease_again, status = js ''uploading'', message = None, chunksCreated = None\<rparr>,
        \<lparr>file_of = nda, status = js ''uploading'', message = None, chunksCreated = None\<rparr>]
   \<and> requests_of (onDrop fake_backend acme [lease, lease_again, nda])
       = [\<lparr>form_files = [lease], x_namespace = js ''acme''\<rparr>,
          \<lparr>form_files = [lease_again], x_namespace = js ''acme''\<rparr>,
          \<lparr>form_files = [nda], x_namespace = js ''acme''\<rparr>]
   \<and> in_flight (take 3 (onDrop fake_backend acme [lease, lease_again, nda])) = 1
   \<and> in_flight (take 4 (onDrop fake_backend acme [lease, lease_again, nda])) = 0"
proof -
  have ne: "[lease, lease_again, nda] \<noteq> []" by simp
  note inst = onDrop_pending_then_sequential [OF ne acme_bound, of fake_backend]
  have "in_flight (take 3 (onDrop fake_backend acme [lease, lease_again, nda])) = 1"
    by (simp add: acme_run in_flight_def)
  moreover have "in_flight (take 4 (onDrop fake_backend acme [lease, lease_again, nda])) = 0"
    by (simp add: acme_run in_flight_def)
  ultimately show ?thesis
    using inst fake_backend_settles by (simp add: acme_def)
qed

text \<open>
  C2. Take the k-th file of a run whose request has settled, and the list as it is right
  after the handler has been resumed for it. The item of that file holds the file. When the
  request was fulfilled with a response whose first result has status \<^verbatim>\<open>success\<close>, the item
  has status \<^verbatim>\<open>success\<close>, the message built from the chunk count of that result, and that
  count; when the first result has another status, \<^verbatim>\<open>error\<close> in particular, the item has
  that status and the message of the result. When the request was rejected, the item has
  status \<^verbatim>\<open>error\<close> and the detail of the server if it is there and not empty, else the text
  of the error. Whichever of these happened, if there is a next file, the request for it is
  sent.
\<close>

theorem onDrop_marks_each_file:
  assumes "js_trim (namespace s) \<noteq> []"
    and "k < length (responses_of (onDrop srv s acceptedFiles))"
  shows "let E = onDrop srv s acceptedFiles;
             it = batch_history E (files s) ! Suc k ! (length (files s) + k)
         in file_of it = acceptedFiles ! k
            \<and> (\<forall>result r rs.
                  responses_of E ! k = Fulfilled result \<and> results result = Some (r # rs) \<longrightarrow>
                    (if r_status r = js ''success''
                     then status it = js ''success''
                          \<and> message it
                              = Some (js ''Processed successfully! ''
                                      @ (case chunks_created r of
                                           None \<Rightarrow> js ''undefined''
                                         | Some c \<Rightarrow> decimal (unat c))
                                      @ js '' sections analyzed.'')
                          \<and> chunksCreated it = chunks_created r
                     else status it = r_status r \<and> message it = r_message r))
            \<and> (\<forall>err. responses_of E ! k = Rejected err \<longrightarrow>
                  status it = js ''error''
                  \<and> message it = (case detail err of
                                    None \<Rightarrow> error_message err
                                  | Some d \<Rightarrow> if d \<noteq> [] then Some d else error_message err))
            \<and> responses_of E ! k \<noteq> Never
            \<and> (Suc k < length acceptedFiles \<longrightarrow>
                  Suc k < length (requests_of E)
                  \<and> requests_of E ! Suc k
                      = \<lparr>form_files = [acceptedFiles ! Suc k], x_namespace = namespace s\<rparr>)"
proof -
  note st = settled_step [OF assms] and pos = settled_position [OF assms]
  let ?E = "onDrop srv s acceptedFiles"
  let ?b = "batch_history ?E (files s) ! k"
  let ?j = "length (files s) + k"
  let ?it = "batch_history ?E (files s) ! Suc k ! ?j"
  have fs: "acceptedFiles \<noteq> []" using assms(2) by (rule onDrop_nonempty)
  have fulfilled: "if r_status r = js ''success''
                   then status ?it = js ''success''
                        \<and> message ?it
                            = Some (js ''Processed successfully! ''
                                    @ (case chunks_created r of
                                         None \<Rightarrow> js ''undefined''
                                       | Some c \<Rightarrow> decimal (unat c))
                                    @ js '' sections analyzed.'')
                        \<and> chunksCreated ?it = chunks_created r
                   else status ?it = r_status r \<and> message ?it = r_message r"
    if "responses_of ?E ! k = Fulfilled result" and "results result = Some (r # rs)"
    for result r rs
  proof -
    have "first_result result = r" using that(2) by (simp add: first_result_def)
    then show ?thesis
      unfolding st(2) that(1) on_settled_nth_fulfilled [OF pos]
      by (simp add: template_number_def)
  qed
  have rejected: "status ?it = js ''error''
                  \<and> message ?it = (case detail err of
                                     None \<Rightarrow> error_message err
                                   | Some d \<Rightarrow> if d \<noteq> [] then Some d else error_message err)"
    if "responses_of ?E ! k = Rejected err" for err
    unfolding st(2) that on_settled_nth_rejected [OF pos]
    by (simp add: js_or_def truthy_def split: option.splits)
  have same_file: "file_of ?it = acceptedFiles ! k"
  proof -
    have "map file_of (batch_history ?E (files s) ! Suc k) = map file_of ?b"
      unfolding st(2) by (rule on_settled_files)
    then have "map file_of (batch_history ?E (files s) ! Suc k) ! ?j = map file_of ?b ! ?j"
      by simp
    moreover have "length (batch_history ?E (files s) ! Suc k) = length ?b"
      unfolding st(2) by (rule on_settled_length)
    ultimately show ?thesis using pos by simp
  qed
  have "next": "Suc k < length (requests_of ?E)
                \<and> requests_of ?E ! Suc k
                    = \<lparr>form_files = [acceptedFiles ! Suc k], x_namespace = namespace s\<rparr>"
    if more: "Suc k < length acceptedFiles"
  proof -
    let ?L = "fst (for_loop srv (namespace s) [] acceptedFiles 0 0)"
    have R: "responses_of ?E = responses_of ?L"
      using onDrop_responses [OF fs assms(1)] by (simp add: loop_of_def)
    have Q: "requests_of ?E = requests_of ?L"
      using onDrop_requests [OF fs assms(1)] by (simp add: loop_of_def)
    have pre: "prefix (requests_of ?L) (map (\<lambda>f. uploadContract f (namespace s)) acceptedFiles)"
      by (rule loop_requests_prefix)
    have len: "Suc k < length (requests_of ?L)"
    proof (cases "length (responses_of ?L) < length acceptedFiles")
      case True
      from loop_next_request [OF this] assms(2) R show ?thesis by simp
    next
      case False
      with loop_history [of srv "namespace s" "[]" acceptedFiles 0 0 "[]"]
      have "length (responses_of ?L) = length acceptedFiles" by simp
      moreover have "length (responses_of ?L) \<le> length (requests_of ?L)"
        by (rule loop_responses_le)
      ultimately show ?thesis using more by simp
    qed
    from pre obtain zs where
      "map (\<lambda>f. uploadContract f (namespace s)) acceptedFiles = requests_of ?L @ zs"
      by (auto simp: prefix_def)
    then have "requests_of ?L ! Suc k = map (\<lambda>f. uploadContract f (namespace s)) acceptedFiles ! Suc k"
      using len by (simp add: nth_append)
    with len more show ?thesis unfolding Q by (simp add: uploadContract_def)
  qed
  show ?thesis unfolding Let_def using same_file fulfilled rejected "next" st(5) by blast
qed

theorem onDrop_marks_each_file_witness:
  "status (batch_history (onDrop picky_backend acme [lease, lease_again, nda]) (files acme) ! 1 ! 0)
     = js ''success''
   \<and> message (batch_history (onDrop picky_backend acme [lease, lease_again, nda]) (files acme) ! 1 ! 0)
       = Some (js ''Processed successfully! 7 sections analyzed.'')
   \<and> status (batch_history (onDrop picky_backend acme [lease, lease_again, nda]) (files acme) ! 2 ! 1)
       = js ''error''
   \<and> message (batch_history (onDrop picky_backend acme [lease, lease_again, nda]) (files acme) ! 2 ! 1)
       = Some (js ''No text could be extracted'')
   \<and> status (batch_history (onDrop picky_backend acme [lease, lease_again, nda]) (files acme) ! 3 ! 2)
       = js ''error''
   \<and> message (batch_history (onDrop picky_backend acme [lease, lease_again, nda]) (files acme) ! 3 ! 2)
       = Some (js ''Only PDF files are supported'')
   \<and> requests_of (onDrop picky_backend acme [lease, lease_again, nda]) ! 2
       = \<lparr>form_files = [nda], x_namespace = js ''acme''\<rparr>"
proof -
  let ?E = "onDrop picky_backend acme [lease, lease_again, nda]"
  have k0: "0 < length (responses_of ?E)" and k1: "1 < length (responses_of ?E)"
    and k2: "2 < length (responses_of ?E)"
    by (simp_all add: picky_responses)
  have ns: "namespace acme = js ''acme''" and none: "files acme = []"
    by (simp_all add: acme_def)
  have seven: "js ''Processed successfully! '' @ decimal (unat (7 :: count))
                 @ js '' sections analyzed.''
               = js ''Processed successfully! 7 sections analyzed.''"
    by (simp add: js_def)
  let ?ok = "\<lparr>filename = Some (js ''lease.pdf''), r_status = js ''success'',
              chunks_created = Some 7, r_message = None\<rparr>"
  let ?bad = "\<lparr>filename = Some (js ''lease.pdf''), r_status = js ''error'',
               chunks_created = None, r_message = Some (js ''No text could be extracted'')\<rparr>"
  have r0: "responses_of ?E ! 0 = Fulfilled processed \<and> results processed = Some (?ok # [])"
    and r1: "responses_of ?E ! 1 = Fulfilled unreadable \<and> results unreadable = Some (?bad # [])"
    and r2: "responses_of ?E ! 2 = Rejected refused"
    by (simp_all add: picky_responses processed_def unreadable_def)
  note i0 = onDrop_marks_each_file [OF acme_bound k0, unfolded Let_def none]
    and i1 = onDrop_marks_each_file [OF acme_bound k1, unfolded Let_def none]
    and i2 = onDrop_marks_each_file [OF acme_bound k2, unfolded Let_def none]
  from i0 r0 have "if r_status ?ok = js ''success''
      then status (batch_history ?E [] ! Suc 0 ! (length ([] :: FileUploadStatus list) + 0))
             = js ''success''
           \<and> message (batch_history ?E [] ! Suc 0 ! (length ([] :: FileUploadStatus list) + 0))
               = Some (js ''Processed successfully! ''
                       @ (case chunks_created ?ok of None \<Rightarrow> js ''undefined''
                          | Some c \<Rightarrow> decimal (unat c))
                       @ js '' sections analyzed.'')
           \<and> chunksCreated (batch_history ?E [] ! Suc 0 ! (length ([] :: FileUploadStatus list) + 0))
               = chunks_created ?ok
      else status (batch_history ?E [] ! Suc 0 ! (length ([] :: FileUploadStatus list) + 0))
             = r_status ?ok
           \<and> message (batch_history ?E [] ! Suc 0 ! (length ([] :: FileUploadStatus list) + 0))
               = r_message ?ok"
    by blast
  then have first: "status (batch_history ?E (files acme) ! 1 ! 0) = js ''success''
               \<and> message (batch_history ?E (files acme) ! 1 ! 0)
                   = Some (js ''Processed successfully! 7 sections analyzed.'')"
    using seven by (simp add: none)
  from i1 r1 have "if r_status ?bad = js ''success''
      then status (batch_history ?E [] ! Suc 1 ! (length ([] :: FileUploadStatus list) + 1))
             = js ''success''
           \<and> message (batch_history ?E [] ! Suc 1 ! (length ([] :: FileUploadStatus list) + 1))
               = Some (js ''Processed successfully! ''
                       @ (case chunks_created ?bad of None \<Rightarrow> js ''undefined''
                          | Some c \<Rightarrow> decimal (unat c))
                       @ js '' sections analyzed.'')
           \<and> chunksCreated (batch_history ?E [] ! Suc 1 ! (length ([] :: FileUploadStatus list) + 1))
               = chunks_created ?bad
      else status (batch_history ?E [] ! Suc 1 ! (length ([] :: FileUploadStatus list) + 1))
             = r_status ?bad
           \<and> message (batch_history ?E [] ! Suc 1 ! (length ([] :: FileUploadStatus list) + 1))
               = r_message ?bad"
    by blast
  then have second: "status (batch_history ?E (files acme) ! 2 ! 1) = js ''error''
                \<and> message (batch_history ?E (files acme) ! 2 ! 1)
                    = Some (js ''No text could be extracted'')"
    using status_literals by (simp add: none numeral_2_eq_2)
  let ?fs = "[lease, lease_again, nda]"
  from i1 have "Suc 1 < length ?fs \<longrightarrow>
      requests_of ?E ! Suc 1 = \<lparr>form_files = [?fs ! Suc 1], x_namespace = namespace acme\<rparr>"
    by blast
  then have following: "requests_of ?E ! 2 = \<lparr>form_files = [nda], x_namespace = js ''acme''\<rparr>"
    by (simp add: ns numeral_2_eq_2)
  from i2 r2 have "status (batch_history ?E [] ! Suc 2 ! (length ([] :: FileUploadStatus list) + 2))
        = js ''error''
      \<and> message (batch_history ?E [] ! Suc 2 ! (length ([] :: FileUploadStatus list) + 2))
          = (case detail refused of None \<Rightarrow> error_message refused
             | Some d \<Rightarrow> if d \<noteq> [] then Some d else error_message refused)"
    by blast
  then have third: "status (batch_history ?E (files acme) ! 3 ! 2) = js ''error''
               \<and> message (batch_history ?E (files acme) ! 3 ! 2)
                   = Some (js ''Only PDF files are supported'')"
    by (simp add: none refused_def js_empty eval_nat_numeral)
  from first second following third show ?thesis by simp
qed

text \<open>
  C3. When every request of a run settles, the run displays exactly one message, after the
  loop, and it is the last value of \<^verbatim>\<open>globalMessage\<close>. With \<open>n\<close> files of which \<open>nf\<close> failed:
  no failure gives the success message with \<open>n\<close> and the workspace; \<open>nf = n\<close> gives the
  failure message with \<open>nf\<close>; anything else gives the message with \<open>n - nf\<close> and \<open>nf\<close> that
  points to the errors above.
\<close>

theorem onDrop_final_message:
  assumes "acceptedFiles \<noteq> []" and "js_trim (namespace s) \<noteq> []" and "\<forall>h. srv h \<noteq> Never"
  shows "let E = onDrop srv s acceptedFiles;
             n = length acceptedFiles;
             nf = length (filter failed (responses_of E));
             m = (if nf = 0 then
                    \<lparr>msg_type = type_success,
                     msg_text = decimal n @ js '' document'' @ (if n > 1 then js ''s'' else [])
                                @ js '' uploaded successfully to workspace '' @ [0x22]
                                @ namespace s @ [0x22] @ js ''!''\<rparr>
                  else if nf = n then
                    \<lparr>msg_type = type_error,
                     msg_text = js ''Failed to upload '' @ decimal nf @ js '' document''
                                @ (if nf > 1 then js ''s'' else []) @ js ''. Please try again.''\<rparr>
                  else
                    \<lparr>msg_type = type_error,
                     msg_text = decimal (n - nf) @ js '' uploaded, '' @ decimal nf
                                @ js '' failed. Please check the errors above.''\<rparr>)
         in length (responses_of E) = n \<and> messages_of E = [m] \<and> globalMessage (run E s) = Some m"
proof -
  let ?loop = "for_loop srv (namespace s) [] acceptedFiles 0 0"
  from loop_completes [OF assms(3), of "namespace s" "[]" acceptedFiles 0 0]
  obtain sc ec where fin: "snd ?loop = Some (sc, ec)" by auto
  from loop_counters [OF fin]
  have len: "length (responses_of (fst ?loop)) = length acceptedFiles"
    and ec: "ec = length (filter failed (responses_of (fst ?loop)))"
    and sum: "sc + ec = length acceptedFiles" by simp_all
  have resp: "responses_of (onDrop srv s acceptedFiles) = responses_of (fst ?loop)"
    using onDrop_responses [OF assms(1,2)] by (simp add: loop_of_def)
  have msgs: "messages_of (onDrop srv s acceptedFiles) = [batch_message sc ec (namespace s)]"
    using onDrop_messages [OF assms(1,2), of srv] fin by simp
  have final: "globalMessage (run (onDrop srv s acceptedFiles) s)
                 = Some (batch_message sc ec (namespace s))"
    using onDrop_shape [OF assms(1,2), of srv] fin run_last_message
    by (metis (no_types, lifting) append_assoc option.simps(5) prod.simps(2))
  have n: "0 < length acceptedFiles" using assms(1) by simp
  have sc: "sc = length acceptedFiles - ec" using sum by simp
  have le: "ec \<le> length acceptedFiles" using sum by simp
  show ?thesis
    unfolding Let_def resp len msgs final ec [symmetric]
    using n le by (auto simp: batch_message_def sc)
qed

theorem onDrop_final_message_witness:
  "messages_of (onDrop fake_backend acme [lease, lease_again, nda])
     = [\<lparr>msg_type = type_error,
         msg_text = js ''2 uploaded, 1 failed. Please check the errors above.''\<rparr>]
   \<and> globalMessage (run (onDrop fake_backend acme [lease, lease_again, nda]) acme)
       = Some \<lparr>msg_type = type_error,
               msg_text = js ''2 uploaded, 1 failed. Please check the errors above.''\<rparr>"
proof -
  have nf: "length (filter failed (responses_of (onDrop fake_backend acme [lease, lease_again, nda])))
          = 1"
    by (simp add: acme_responses first_result_processed)
  show ?thesis
    using onDrop_final_message [OF three_files acme_bound fake_backend_settles,
        unfolded Let_def nf]
    by (simp add: js_def)
qed

text \<open>
  C4. Whatever is typed into the workspace field, \<^verbatim>\<open>handleNamespaceChange\<close> stores in
  \<^verbatim>\<open>localStorage\<close> (and in the state cell) exactly the characters of the input that are
  letters, digits, hyphens or underscores, in their order (a subsequence of the input, the
  empty string included), and \<^verbatim>\<open>getNamespace\<close> then returns that string.
\<close>

theorem workspace_set_then_get:
  "getNamespace (snd (handleNamespaceChange x (s, ls)))
     = Some (filter (\<lambda>c. c \<in> workspace_alphabet) x)
   \<and> namespace (fst (handleNamespaceChange x (s, ls))) = filter (\<lambda>c. c \<in> workspace_alphabet) x
   \<and> subseq (filter (\<lambda>c. c \<in> workspace_alphabet) x) x"
  by (simp add: handleNamespaceChange_def setNamespace_def getNamespace_def replace_all_empty
        class_alphabet Let_def)

theorem workspace_set_then_get_witness:
  "getNamespace (snd (handleNamespaceChange (js ''my ws/1_a-B!'') (s0, Map.empty)))
     = Some (js ''myws1_a-B'')
   \<and> getNamespace (snd (handleNamespaceChange (js ''!!'') (s0, Map.empty))) = Some []"
  using workspace_set_then_get [of "js ''my ws/1_a-B!''" s0 Map.empty]
    workspace_set_then_get [of "js ''!!''" s0 Map.empty]
  by (simp add: js_def workspace_alphabet_def)

text \<open>
  C5. For a non-empty list of files and a workspace whose trimmed name is empty (the empty
  name in particular), \<^verbatim>\<open>onDrop\<close> sends no request, never calls \<^verbatim>\<open>setFiles\<close>, so that the
  list stays as it was, and displays the error message that asks for a workspace name.
\<close>

theorem onDrop_without_workspace:
  assumes "acceptedFiles \<noteq> []" and "js_trim (namespace s) = []"
  shows "requests_of (onDrop srv s acceptedFiles) = []
         \<and> batch_history (onDrop srv s acceptedFiles) (files s) = []
         \<and> files (run (onDrop srv s acceptedFiles) s) = files s
         \<and> globalMessage (run (onDrop srv s acceptedFiles) s)
             = Some \<lparr>msg_type = type_error,
                     msg_text = js ''Please enter a workspace name before uploading documents.''\<rparr>
         \<and> namespaceError (run (onDrop srv s acceptedFiles) s) = js ''Workspace name is required''"
  using assms by (simp add: onDrop_def run_def)

theorem onDrop_without_workspace_witness:
  "requests_of (onDrop fake_backend s0 [lease]) = []
   \<and> files (run (onDrop fake_backend s0 [lease]) s0) = []
   \<and> globalMessage (run (onDrop fake_backend s0 [lease]) s0)
       = Some \<lparr>msg_type = type_error,
               msg_text = js ''Please enter a workspace name before uploading documents.''\<rparr>"
proof -
  have "[lease] \<noteq> []" by simp
  moreover have "js_trim (namespace s0) = []" by (simp add: s0_def js_trim_def)
  moreover have "files s0 = []" by (simp add: s0_def)
  ultimately show ?thesis
    using onDrop_without_workspace [of "[lease]" s0 fake_backend] by simp
qed

text \<open>
  C6. Removing an item is a click on its delete button, which the list renders only for an
  item whose status is not \<^verbatim>\<open>uploading\<close> and which calls \<^verbatim>\<open>removeFile\<close> with the file of the
  item. In a list whose items hold pairwise distinct file objects, every such click removes
  exactly one item, one whose status is not \<^verbatim>\<open>uploading\<close>, and keeps all other items,
  unchanged and in order; in particular the items with status \<^verbatim>\<open>uploading\<close> are the same
  before and after. And every item whose status is not \<^verbatim>\<open>uploading\<close> can be removed so.
\<close>

theorem delete_click_keeps_pending:
  assumes "distinct (map (\<lambda>f. obj_ref (file_of f)) b)"
  shows "(\<forall>b'. delete_click b b' \<longrightarrow>
            (\<exists>k < length b. status (b ! k) \<noteq> js ''uploading'' \<and> b' = take k b @ drop (Suc k) b)
            \<and> filter (\<lambda>f. status f = js ''uploading'') b'
                = filter (\<lambda>f. status f = js ''uploading'') b)
         \<and> (\<forall>k < length b. status (b ! k) \<noteq> js ''uploading'' \<longrightarrow>
               delete_click b (take k b @ drop (Suc k) b))"
proof (intro conjI allI impI)
  fix b' assume "delete_click b b'"
  then obtain k onClick where k: "k < length b"
    and button: "delete_button (b ! k) = Some onClick" and b': "b' = onClick b"
    by (auto elim: delete_click.cases)
  from button have settled: "status (b ! k) \<noteq> js ''uploading''"
    and handler: "onClick = removeFile (file_of (b ! k))"
    by (auto simp: delete_button_def split: if_splits)
  have removed: "b' = take k b @ drop (Suc k) b"
    using filter_out_nth [OF k assms] by (simp add: b' handler removeFile_def same_object_def)
  with k settled
  show "\<exists>k < length b. status (b ! k) \<noteq> js ''uploading'' \<and> b' = take k b @ drop (Suc k) b"
    by blast
  show "filter (\<lambda>f. status f = js ''uploading'') b' = filter (\<lambda>f. status f = js ''uploading'') b"
    unfolding removed using k settled by (rule filter_without_nth)
next
  fix k assume k: "k < length b" and settled: "status (b ! k) \<noteq> js ''uploading''"
  have "delete_click b (removeFile (file_of (b ! k)) b)"
    using k settled delete_click.click [of k b "removeFile (file_of (b ! k))"]
    by (simp add: delete_button_def)
  then show "delete_click b (take k b @ drop (Suc k) b)"
    using filter_out_nth [OF k assms] by (simp add: removeFile_def same_object_def)
qed

theorem delete_click_keeps_pending_witness:
  "delete_click shown [shown ! 1, shown ! 2]
   \<and> status (shown ! 0) = js ''success''
   \<and> status (shown ! 1) = js ''uploading''
   \<and> filter (\<lambda>f. status f = js ''uploading'') [shown ! 1, shown ! 2] = [shown ! 1]
   \<and> filter (\<lambda>f. status f = js ''uploading'') shown = [shown ! 1]"
proof -
  have d: "distinct (map (\<lambda>f. obj_ref (file_of f)) shown)"
    by (simp add: shown_def lease_def lease_again_def nda_def)
  have l0: "0 < length shown" by (simp add: shown_def)
  have st: "status (shown ! 0) = js ''success''" "status (shown ! 1) = js ''uploading''"
    "status (shown ! 2) = js ''error''"
    by (simp_all add: shown_def)
  have settled: "status (shown ! 0) \<noteq> js ''uploading''"
    using st status_literals by simp
  have rest: "take 0 shown @ drop (Suc 0) shown = [shown ! 1, shown ! 2]"
    by (simp add: shown_def)
  from delete_click_keeps_pending [OF d] l0 settled
  have step: "delete_click shown (take 0 shown @ drop (Suc 0) shown)" by blast
  with delete_click_keeps_pending [OF d]
  have kept: "filter (\<lambda>f. status f = js ''uploading'') (take 0 shown @ drop (Suc 0) shown)
                = filter (\<lambda>f. status f = js ''uploading'') shown" by blast
  have "filter (\<lambda>f. status f = js ''uploading'') [shown ! 1, shown ! 2] = [shown ! 1]"
    using st status_literals by simp
  with step kept st show ?thesis unfolding rest by simp
qed



text \<open>
  C8. \<^verbatim>\<open>handleSubmit\<close> with a question that is blank after trimming changes nothing and sends
  nothing. With no workspace in \<^verbatim>\<open>localStorage\<close>, or the empty one, it sends no request; and
  if the question is not blank (the blank case returns first, silently) it sets the error
  text that asks for a workspace, and nothing else.
\<close>

theorem handleSubmit_guards:
  "(js_trim (query s) = [] \<longrightarrow> handleSubmit srv ls s = (s, []))
   \<and> (getNamespace ls = None \<or> getNamespace ls = Some [] \<longrightarrow> snd (handleSubmit srv ls s) = [])
   \<and> (js_trim (query s) \<noteq> [] \<and> (getNamespace ls = None \<or> getNamespace ls = Some []) \<longrightarrow>
        fst (handleSubmit srv ls s)
          = s\<lparr>error := js ''Please upload documents first to set a workspace name.''\<rparr>)"
  by (auto simp: handleSubmit_def Let_def)

theorem handleSubmit_guards_witness:
  "handleSubmit answering (setNamespace (js ''acme'') Map.empty) blank_question
     = (blank_question, [])
   \<and> snd (handleSubmit answering Map.empty term_question) = []
   \<and> fst (handleSubmit answering Map.empty term_question)
       = term_question\<lparr>error := js ''Please upload documents first to set a workspace name.''\<rparr>
   \<and> snd (handleSubmit answering (setNamespace [] Map.empty) term_question) = []"
proof -
  have blank: "js_trim (query blank_question) = []"
    by (simp add: blank_question_def js_trim_def js_def js_whitespace_def)
  have asked: "js_trim (query term_question) \<noteq> []"
    by (simp add: term_question_def js_trim_def js_def js_whitespace_def)
  have unbound: "getNamespace Map.empty = None"
    and cleared: "getNamespace (setNamespace [] Map.empty) = Some []"
    by (simp_all add: getNamespace_def setNamespace_def)
  show ?thesis
    using handleSubmit_guards [of blank_question answering "setNamespace (js ''acme'') Map.empty"]
      handleSubmit_guards [of term_question answering Map.empty]
      handleSubmit_guards [of term_question answering "setNamespace [] Map.empty"]
      blank asked unbound cleared
    by simp
qed

text \<open>
  C9. For a question that is not blank after trimming and a non-empty workspace in
  \<^verbatim>\<open>localStorage\<close>, \<^verbatim>\<open>handleSubmit\<close> sends exactly one request, with the question as typed,
  \<^verbatim>\<open>top_k\<close> 10 and the workspace as \<^verbatim>\<open>namespace\<close>; when it is fulfilled, the answer and the
  sources of the state are those of the response, the sources in their order, the error text
  is empty and the loading flag is off.
\<close>

theorem handleSubmit_sends_one_query:
  assumes "js_trim (query s) \<noteq> []" and "getNamespace ls = Some ns" and "ns \<noteq> []"
  shows "snd (handleSubmit srv ls s)
           = [\<lparr>body_query = query s, body_top_k = 10, body_namespace = ns\<rparr>]
         \<and> (\<forall>result. srv \<lparr>body_query = query s, body_top_k = 10, body_namespace = ns\<rparr>
                         = Fulfilled result \<longrightarrow>
               fst (handleSubmit srv ls s)
                 = s\<lparr>loading := False, answer := response_answer result,
                      sources := response_sources result, error := []\<rparr>)"
  using assms
  by (auto simp: handleSubmit_def Let_def queryContracts_def topK_def split: settlement.splits)

theorem handleSubmit_sends_one_query_witness:
  "snd (handleSubmit answering (setNamespace (js ''acme'') Map.empty) term_question)
     = [\<lparr>body_query = js ''what is the term?'', body_top_k = 10, body_namespace = js ''acme''\<rparr>]
   \<and> answer (fst (handleSubmit answering (setNamespace (js ''acme'') Map.empty) term_question))
       = js ''Two years.''
   \<and> map source_num
         (sources (fst (handleSubmit answering (setNamespace (js ''acme'') Map.empty) term_question)))
       = [1, 2]"
proof -
  have asked: "js_trim (query term_question) \<noteq> []"
    by (simp add: term_question_def js_trim_def js_def js_whitespace_def)
  have bound: "getNamespace (setNamespace (js ''acme'') Map.empty) = Some (js ''acme'')"
    by (simp add: getNamespace_def setNamespace_def)
  have ne: "js ''acme'' \<noteq> []" by (simp add: js_def)
  have q: "query term_question = js ''what is the term?''" by (simp add: term_question_def)
  show ?thesis
    using handleSubmit_sends_one_query [OF asked bound ne, of answering]
    by (simp add: q answering_def two_sources_def)
qed

text \<open>
  C10. When the request for the k-th file is fulfilled with a response that has no
  \<^verbatim>\<open>results\<close>, or an empty \<^verbatim>\<open>results\<close>, the item of that file right after the handler has been
  resumed has status \<^verbatim>\<open>success\<close>, the \<^verbatim>\<open>total_chunks\<close> of the response as its chunk count, and
  the success message built from that count.
\<close>

theorem onDrop_response_without_results:
  assumes "js_trim (namespace s) \<noteq> []"
    and "k < length (responses_of (onDrop srv s acceptedFiles))"
    and "responses_of (onDrop srv s acceptedFiles) ! k = Fulfilled result"
    and "results result = None \<or> results result = Some []"
  shows "let it = batch_history (onDrop srv s acceptedFiles) (files s) ! Suc k ! (length (files s) + k)
         in file_of it = acceptedFiles ! k
            \<and> status it = js ''success''
            \<and> chunksCreated it = total_chunks result
            \<and> message it = Some (js ''Processed successfully! ''
                                  @ (case total_chunks result of
                                       None \<Rightarrow> js ''undefined''
                                     | Some c \<Rightarrow> decimal (unat c))
                                  @ js '' sections analyzed.'')"
proof -
  note st = settled_step [OF assms(1,2)] and pos = settled_position [OF assms(1,2)]
  from assms(4) have fr: "first_result result =
      \<lparr>filename = None, r_status = js ''success'', chunks_created = total_chunks result,
       r_message = None\<rparr>"
    by (auto simp: first_result_def)
  show ?thesis
    unfolding Let_def st(2) assms(3) on_settled_nth_fulfilled [OF pos] fr
    using pos(2) by (simp add: template_number_def)
qed

theorem onDrop_response_without_results_witness:
  "status (batch_history (onDrop bare_backend acme [lease, nda]) (files acme) ! 1 ! 0)
     = js ''success''
   \<and> chunksCreated (batch_history (onDrop bare_backend acme [lease, nda]) (files acme) ! 1 ! 0)
       = Some 12
   \<and> message (batch_history (onDrop bare_backend acme [lease, nda]) (files acme) ! 1 ! 0)
       = Some (js ''Processed successfully! 12 sections analyzed.'')
   \<and> status (batch_history (onDrop bare_backend acme [lease, nda]) (files acme) ! 2 ! 1)
       = js ''success''
   \<and> chunksCreated (batch_history (onDrop bare_backend acme [lease, nda]) (files acme) ! 2 ! 1)
       = Some 0"
proof -
  let ?r0 = "\<lparr>response_message = js ''Processed'', total_chunks = Some 12, results = None\<rparr>"
  let ?r1 = "\<lparr>response_message = js ''Processed'', total_chunks = Some 0, results = Some []\<rparr>"
  have k0: "0 < length (responses_of (onDrop bare_backend acme [lease, nda]))"
    and k1: "1 < length (responses_of (onDrop bare_backend acme [lease, nda]))"
    by (simp_all add: bare_run)
  have r0: "responses_of (onDrop bare_backend acme [lease, nda]) ! 0 = Fulfilled ?r0"
    and r1: "responses_of (onDrop bare_backend acme [lease, nda]) ! 1 = Fulfilled ?r1"
    by (simp_all add: bare_run)
  have e0: "results ?r0 = None \<or> results ?r0 = Some []"
    and e1: "results ?r1 = None \<or> results ?r1 = Some []"
    by simp_all
  have none: "files acme = []" by (simp add: acme_def)
  have rendered: "js ''Processed successfully! '' @ decimal (unat (12 :: count))
                @ js '' sections analyzed.''
              = js ''Processed successfully! 12 sections analyzed.''"
    by (simp add: js_def)
  note i0 = onDrop_response_without_results [OF acme_bound k0 r0 e0, unfolded Let_def none]
    and i1 = onDrop_response_without_results [OF acme_bound k1 r1 e1, unfolded Let_def none]
  from i0 have first: "status (batch_history (onDrop bare_backend acme [lease, nda]) [] ! 1 ! 0)
        = js ''success''
      \<and> chunksCreated (batch_history (onDrop bare_backend acme [lease, nda]) [] ! 1 ! 0) = Some 12
      \<and> message (batch_history (onDrop bare_backend acme [lease, nda]) [] ! 1 ! 0)
          = Some (js ''Processed successfully! 12 sections analyzed.'')"
    using rendered by simp
  from i1 have second: "status (batch_history (onDrop bare_backend acme [lease, nda]) [] ! 2 ! 1)
        = js ''success''
      \<and> chunksCreated (batch_history (onDrop bare_backend acme [lease, nda]) [] ! 2 ! 1) = Some 0"
    by (simp add: numeral_2_eq_2)
  from first second show ?thesis by (simp add: none)
qed

end
